theory Spec2Isabelle
  imports Main
begin

section \<open>The users table (user.py)\<close>

text \<open>
  A Python \<open>str\<close> is a \<open>string\<close>, its characters being the code points below 256,
  and a Python \<open>bytes\<close> value is a list of 8-bit characters as well. A Python \<open>int\<close>
  is an \<open>int\<close>. The primary key \<open>id\<close> is written \<open>id'\<close>, since \<open>id\<close> is the
  identity function of HOL. The two nullable columns are options, \<open>None\<close> being SQL NULL.
\<close>

type_synonym bytes = "char list"

record user =
  id' :: int
  email :: string
  hashed_password :: bytes
  session_id :: "string option"
  reset_token :: "string option"

text \<open>
  The table is the list of its rows in insertion order. The object that a query returns
  is the row itself: the session of \<open>DB\<close> is memoized, so every query of one \<open>DB\<close>
  instance hands out the same object for the same row. The database keeps the primary
  keys of a table distinct; the model states this as \<open>distinct (map id' db)\<close> where a
  property needs it.
\<close>

type_synonym db = "user list"

section \<open>Exceptions\<close>

text \<open>
  \<open>NoResultFound\<close> and \<open>InvalidRequestError\<close> are SQLAlchemy's; an
  \<open>except NoResultFound\<close> clause does not catch an \<open>InvalidRequestError\<close>.
  \<open>ValueError\<close> carries its message.
\<close>

datatype error = NoResultFound | InvalidRequestError | ValueError string

section \<open>Keyword arguments\<close>

text \<open>
  One keyword argument of \<open>find_user_by\<close> or \<open>update_user\<close>: a column of the table with
  a value of the column's type, or \<open>Other k\<close> for a keyword \<open>k\<close> that names no
  attribute of \<open>User\<close>. The service passes the columns \<open>email\<close>, \<open>session_id\<close>,
  \<open>reset_token\<close>, \<open>hashed_password\<close> and \<open>id\<close> only. Assigning to \<open>id\<close> a key
  that another row has would make the commit fail in the database; the model has no such
  failure, and the service never assigns a key.
\<close>

datatype kwarg =
    Id int
  | Email string
  | Hashed_password bytes
  | Session_id "string option"
  | Reset_token "string option"
  | Other string

fun hasattr :: "kwarg \<Rightarrow> bool" where
  "hasattr (Other k) = False"
| "hasattr _ = True"

fun key :: "kwarg \<Rightarrow> string" where
  "key (Id _) = ''id''"
| "key (Email _) = ''email''"
| "key (Hashed_password _) = ''hashed_password''"
| "key (Session_id _) = ''session_id''"
| "key (Reset_token _) = ''reset_token''"
| "key (Other k) = k"

text \<open>The test that \<open>filter_by\<close> generates for one keyword; a \<open>None\<close> value tests for NULL.\<close>

fun matches :: "user \<Rightarrow> kwarg \<Rightarrow> bool" where
  "matches u (Id i) = (id' u = i)"
| "matches u (Email e) = (email u = e)"
| "matches u (Hashed_password h) = (hashed_password u = h)"
| "matches u (Session_id s) = (session_id u = s)"
| "matches u (Reset_token t) = (reset_token u = t)"
| "matches u (Other k) = False"

fun setattr :: "user \<Rightarrow> kwarg \<Rightarrow> user" where
  "setattr u (Id i) = u\<lparr>id' := i\<rparr>"
| "setattr u (Email e) = u\<lparr>email := e\<rparr>"
| "setattr u (Hashed_password h) = u\<lparr>hashed_password := h\<rparr>"
| "setattr u (Session_id s) = u\<lparr>session_id := s\<rparr>"
| "setattr u (Reset_token t) = u\<lparr>reset_token := t\<rparr>"
| "setattr u (Other k) = u"

section \<open>The repository (db.py)\<close>

text \<open>The rows that satisfy every keyword of a query.\<close>

definition matching :: "db \<Rightarrow> kwarg list \<Rightarrow> user list" where
  "matching db kwargs = filter (\<lambda>u. list_all (matches u) kwargs) db"

text \<open>
  \<open>find_user_by\<close>: \<open>filter_by\<close> rejects a keyword that is no attribute with
  \<open>InvalidRequestError\<close>; \<open>one()\<close> returns the only row, raises \<open>NoResultFound\<close> on
  no row and \<open>MultipleResultsFound\<close> on several. The latter is an
  \<open>InvalidRequestError\<close> and not a \<open>NoResultFound\<close>, so the second handler turns it
  into \<open>InvalidRequestError\<close>.
\<close>

definition find_user_by :: "db \<Rightarrow> kwarg list \<Rightarrow> error + user" where
  "find_user_by db kwargs =
     (if \<not> list_all hasattr kwargs then Inl InvalidRequestError
      else case matching db kwargs of
             [] \<Rightarrow> Inl NoResultFound
           | [u] \<Rightarrow> Inr u
           | _ \<Rightarrow> Inl InvalidRequestError)"

text \<open>
  The key of a new row: SQLite gives an integer primary key one more than the largest
  key in use, and 1 in an empty table.
\<close>

definition next_id :: "db \<Rightarrow> int" where
  "next_id db = (case map id' db of [] \<Rightarrow> 1 | i # is \<Rightarrow> fold max is i + 1)"

definition add_user :: "db \<Rightarrow> string \<Rightarrow> bytes \<Rightarrow> user \<times> db" where
  "add_user db e h =
     (let user = \<lparr>id' = next_id db, email = e, hashed_password = h,
                  session_id = None, reset_token = None\<rparr>
      in (user, db @ [user]))"

text \<open>
  The loop of \<open>update_user\<close> over the keywords, on the object found: it stops with
  \<open>ValueError\<close> at the first keyword that is no attribute. The assignments before it
  are made on the object of the memoized session, so later queries see them.
\<close>

fun update_loop :: "user \<Rightarrow> kwarg list \<Rightarrow> (error + unit) \<times> user" where
  "update_loop u [] = (Inr (), u)"
| "update_loop u (kv # kvs) =
     (if \<not> hasattr kv
      then (Inl (ValueError ([CHR 0x27] @ key kv @ [CHR 0x27] @
                  '' is not a valid attribute of User.'')), u)
      else update_loop (setattr u kv) kvs)"

text \<open>The row with key \<open>i\<close> replaced by the object \<open>u\<close> as the loop left it.\<close>

definition put :: "db \<Rightarrow> int \<Rightarrow> user \<Rightarrow> db" where
  "put db i u = map (\<lambda>v. if id' v = i then u else v) db"

definition update_user :: "db \<Rightarrow> int \<Rightarrow> kwarg list \<Rightarrow> (error + unit) \<times> db" where
  "update_user db user_id kwargs =
     (case find_user_by db [Id user_id] of
        Inl e \<Rightarrow> (Inl e, db)
      | Inr user \<Rightarrow>
          (case update_loop user kwargs of (r, user') \<Rightarrow> (r, put db user_id user')))"

section \<open>Password hashing (bcrypt)\<close>

text \<open>
  The bcrypt library is not part of the repository: its two functions are parameters of
  the model. \<open>hashpw B password salt\<close> is \<open>bcrypt.hashpw(password, salt)\<close> and
  \<open>checkpw B password hashed\<close> is \<open>bcrypt.checkpw(password, hashed)\<close>. The salt that
  \<open>bcrypt.gensalt()\<close> draws and the identifier that \<open>uuid.uuid4()\<close> draws are arguments
  of the functions that draw them.
\<close>

record bcrypt =
  hashpw :: "bytes \<Rightarrow> bytes \<Rightarrow> bytes"
  checkpw :: "bytes \<Rightarrow> bytes \<Rightarrow> bool"

text \<open>
  \<open>str.encode\<close>, whose default encoding is UTF-8, on code points below 256: one byte
  below 128, two bytes from there on.
\<close>

definition encode_char :: "char \<Rightarrow> bytes" where
  "encode_char c =
     (let n = (of_char c :: nat)
      in if n < 128 then [c] else [char_of (192 + n div 64), char_of (128 + n mod 64)])"

definition encode :: "string \<Rightarrow> bytes" where
  "encode s = concat (map encode_char s)"

text \<open>encrypt\_password.py\<close>

definition hash_password :: "bcrypt \<Rightarrow> bytes \<Rightarrow> string \<Rightarrow> bytes" where
  "hash_password B salt password = hashpw B (encode password) salt"

definition is_valid :: "bcrypt \<Rightarrow> bytes \<Rightarrow> string \<Rightarrow> bool" where
  "is_valid B hashed password = checkpw B (encode password) hashed"

text \<open>\<open>_hash_password\<close> of auth.py\<close>

definition auth_hash_password :: "bcrypt \<Rightarrow> bytes \<Rightarrow> string \<Rightarrow> bytes" where
  "auth_hash_password B salt password = hashpw B (encode password) salt"

text \<open>
  What the library promises of its two functions: a password verifies against every
  hash made of it, whatever the salt.
\<close>

definition bcrypt_roundtrip :: "bcrypt \<Rightarrow> bool" where
  "bcrypt_roundtrip B \<longleftrightarrow> (\<forall>password salt. checkpw B password (hashpw B password salt))"

section \<open>The authentication service (auth.py)\<close>

definition register_user ::
  "bcrypt \<Rightarrow> db \<Rightarrow> bytes \<Rightarrow> string \<Rightarrow> string \<Rightarrow> (error + user) \<times> db" where
  "register_user B db salt e password =
     (case find_user_by db [Email e] of
        Inr _ \<Rightarrow> (Inl (ValueError (''User '' @ e @ '' already exists'')), db)
      | Inl NoResultFound \<Rightarrow>
          (case add_user db e (auth_hash_password B salt password) of
             (user, db') \<Rightarrow> (Inr user, db'))
      | Inl err \<Rightarrow> (Inl err, db))"

definition valid_login :: "bcrypt \<Rightarrow> db \<Rightarrow> string \<Rightarrow> string \<Rightarrow> error + bool" where
  "valid_login B db e password =
     (case find_user_by db [Email e] of
        Inr user \<Rightarrow> Inr (checkpw B (encode password) (hashed_password user))
      | Inl NoResultFound \<Rightarrow> Inr False
      | Inl err \<Rightarrow> Inl err)"

text \<open>
  \<open>create_session\<close> has no handler around its lookup. The test \<open>if user\<close> holds of
  every object that the lookup returns, so the final \<open>return None\<close> is never reached.
\<close>

definition create_session ::
  "db \<Rightarrow> string \<Rightarrow> string \<Rightarrow> (error + string option) \<times> db" where
  "create_session db uuid e =
     (case find_user_by db [Email e] of
        Inl err \<Rightarrow> (Inl err, db)
      | Inr user \<Rightarrow>
          (case update_user db (id' user) [Session_id (Some uuid)] of
             (Inl err, db') \<Rightarrow> (Inl err, db')
           | (Inr _, db') \<Rightarrow> (Inr (Some uuid), db')))"

definition get_user_from_session_id :: "db \<Rightarrow> string option \<Rightarrow> error + user option" where
  "get_user_from_session_id db sid =
     (case sid of
        None \<Rightarrow> Inr None
      | Some s \<Rightarrow>
          (case find_user_by db [Session_id (Some s)] of
             Inr user \<Rightarrow> Inr (Some user)
           | Inl NoResultFound \<Rightarrow> Inr None
           | Inl err \<Rightarrow> Inl err))"

definition destroy_session :: "db \<Rightarrow> int \<Rightarrow> (error + unit) \<times> db" where
  "destroy_session db user_id = update_user db user_id [Session_id None]"

definition get_reset_password_token ::
  "db \<Rightarrow> string \<Rightarrow> string \<Rightarrow> (error + string) \<times> db" where
  "get_reset_password_token db uuid e =
     (case find_user_by db [Email e] of
        Inl NoResultFound \<Rightarrow> (Inl (ValueError ''User not found''), db)
      | Inl err \<Rightarrow> (Inl err, db)
      | Inr user \<Rightarrow>
          (case update_user db (id' user) [Reset_token (Some uuid)] of
             (Inl NoResultFound, db') \<Rightarrow> (Inl (ValueError ''User not found''), db')
           | (Inl err, db') \<Rightarrow> (Inl err, db')
           | (Inr _, db') \<Rightarrow> (Inr uuid, db')))"

definition update_password ::
  "bcrypt \<Rightarrow> db \<Rightarrow> bytes \<Rightarrow> string \<Rightarrow> string \<Rightarrow> (error + unit) \<times> db" where
  "update_password B db salt token password =
     (case find_user_by db [Reset_token (Some token)] of
        Inl NoResultFound \<Rightarrow> (Inl (ValueError ''Invalid reset token''), db)
      | Inl err \<Rightarrow> (Inl err, db)
      | Inr user \<Rightarrow>
          (case update_user db (id' user)
                  [Hashed_password (auth_hash_password B salt password), Reset_token None] of
             (Inl NoResultFound, db') \<Rightarrow> (Inl (ValueError ''Invalid reset token''), db')
           | (Inl err, db') \<Rightarrow> (Inl err, db')
           | (Inr _, db') \<Rightarrow> (Inr (), db')))"

section \<open>Sample data\<close>

text \<open>
  A small instance of the hashing library, on which the theorems below are run: the
  hash is the salt followed by the reversed password, and checking compares the end of
  the hash. The rows \<open>alice\<close> (password \<open>old\<close>) and \<open>bob\<close> (password \<open>secret\<close>,
  a session and a pending reset) make a table as the service leaves it; \<open>carol\<close> shares
  the email of \<open>alice\<close> and the session id of \<open>bob\<close>, and the session id of \<open>eve\<close> is
  the empty string, as \<open>DB.add_user\<close> and \<open>DB.update_user\<close> can store them.
\<close>

definition demo_bcrypt :: bcrypt where
  "demo_bcrypt = \<lparr>hashpw = (\<lambda>password salt. salt @ rev password),
                   checkpw = (\<lambda>password hashed. drop (length hashed - length password) hashed = rev password)\<rparr>"

definition alice :: user where
  "alice = \<lparr>id' = 1, email = ''alice@x.com'', hashed_password = ''s1dlo'',
            session_id = None, reset_token = None\<rparr>"

definition bob :: user where
  "bob = \<lparr>id' = 2, email = ''bob@x.com'', hashed_password = ''s2terces'',
          session_id = Some ''5e1f'', reset_token = Some ''77aa''\<rparr>"

definition carol :: user where
  "carol = \<lparr>id' = 3, email = ''alice@x.com'', hashed_password = ''s3wen'',
            session_id = Some ''5e1f'', reset_token = None\<rparr>"

definition eve :: user where
  "eve = \<lparr>id' = 4, email = ''eve@x.com'', hashed_password = ''s4dlo'',
          session_id = Some '''', reset_token = None\<rparr>"

section \<open>Lookups\<close>

lemma find_user_by_none:
  "list_all hasattr kw \<Longrightarrow> \<forall>v\<in>set db. \<not> list_all (matches v) kw \<Longrightarrow>
   find_user_by db kw = Inl NoResultFound"
  by (simp add: find_user_by_def matching_def filter_empty_conv[THEN iffD2])

lemma distinct_sole: "distinct xs \<Longrightarrow> set xs = {u} \<Longrightarrow> xs = [u]"
proof (cases xs)
  case Nil
  assume "set xs = {u}"
  with Nil show ?thesis by simp
next
  case (Cons x ys)
  assume d: "distinct xs" and s: "set xs = {u}"
  from s Cons have x: "x = u" by auto
  from d Cons x have "u \<notin> set ys" by simp
  moreover from s Cons have "set ys \<subseteq> {u}" by auto
  ultimately have "ys = []" by (cases ys) auto
  with x Cons show ?thesis by simp
qed

lemma filter_sole:
  assumes "distinct xs" "u \<in> set xs" "P u" "\<forall>v\<in>set xs. P v \<longrightarrow> v = u"
  shows "filter P xs = [u]"
proof (rule distinct_sole)
  from assms(1) show "distinct (filter P xs)" by simp
  show "set (filter P xs) = {u}"
  proof (intro set_eqI iffI)
    fix x assume "x \<in> set (filter P xs)"
    then have x: "x \<in> set xs" and px: "P x" by simp_all
    from assms(4) x have "P x \<longrightarrow> x = u" by (rule bspec)
    from this px have "x = u" by (rule mp)
    then show "x \<in> {u}" by simp
  next
    fix x assume "x \<in> {u}"
    then have "x = u" by simp
    with assms(2,3) show "x \<in> set (filter P xs)" by simp
  qed
qed

lemma distinct_ids: "distinct (map id' db) \<Longrightarrow> distinct db"
  by (simp add: distinct_map)

lemma ids_inj:
  assumes "distinct (map id' db)" "u \<in> set db" "v \<in> set db" "id' v = id' u"
  shows "v = u"
proof -
  from assms(1) have "inj_on id' (set db)" by (simp add: distinct_map)
  from this assms(4,3,2) show ?thesis by (rule inj_onD)
qed

lemma matching_sole:
  assumes "distinct (map id' db)" "u \<in> set db" "list_all (matches u) kw"
    "\<forall>v\<in>set db. list_all (matches v) kw \<longrightarrow> v = u"
  shows "matching db kw = [u]"
  unfolding matching_def
  by (rule filter_sole[where P = "\<lambda>v. list_all (matches v) kw", OF distinct_ids[OF assms(1)] assms(2-4)])

lemma find_user_by_sole:
  assumes "list_all hasattr kw" "distinct (map id' db)" "u \<in> set db" "list_all (matches u) kw"
    "\<forall>v\<in>set db. list_all (matches v) kw \<longrightarrow> v = u"
  shows "find_user_by db kw = Inr u"
  using assms(1) matching_sole[OF assms(2-5)] by (simp add: find_user_by_def)

lemma find_user_by_id:
  assumes "distinct (map id' db)" "u \<in> set db"
  shows "find_user_by db [Id (id' u)] = Inr u"
proof (rule find_user_by_sole[OF _ assms])
  show "list_all hasattr [Id (id' u)]" by simp
  show "list_all (matches u) [Id (id' u)]" by simp
  show "\<forall>v\<in>set db. list_all (matches v) [Id (id' u)] \<longrightarrow> v = u"
  proof (intro ballI impI)
    fix v assume v: "v \<in> set db" and "list_all (matches v) [Id (id' u)]"
    then have "id' v = id' u" by simp
    with v show "v = u" by (rule ids_inj[OF assms])
  qed
qed

lemma find_user_by_many:
  "2 \<le> length (matching db kw) \<Longrightarrow> find_user_by db kw = Inl InvalidRequestError"
  by (cases "matching db kw"; cases "tl (matching db kw)") (auto simp: find_user_by_def)

lemma update_user_found:
  "distinct (map id' db) \<Longrightarrow> u \<in> set db \<Longrightarrow> update_loop u kw = (r, u') \<Longrightarrow>
   update_user db (id' u) kw = (r, put db (id' u) u')"
  by (simp add: update_user_def find_user_by_id)

lemma set_put:
  assumes "distinct (map id' db)" "u \<in> set db"
  shows "set (put db (id' u) u') = insert u' (set db - {u})"
proof -
  have "\<And>v. v \<in> set db \<Longrightarrow> (id' v = id' u) = (v = u)"
    using ids_inj[OF assms] by blast
  then have "put db (id' u) u' = map (\<lambda>v. if v = u then u' else v) db"
    unfolding put_def by (intro map_cong) simp_all
  then have "set (put db (id' u) u') = (\<lambda>v. if v = u then u' else v) ` set db"
    by (simp only: set_map)
  also have "\<dots> = insert u' (set db - {u})"
  proof (intro set_eqI iffI)
    fix x assume "x \<in> (\<lambda>v. if v = u then u' else v) ` set db"
    then obtain v where "v \<in> set db" "x = (if v = u then u' else v)" by blast
    then show "x \<in> insert u' (set db - {u})" by (cases "v = u") simp_all
  next
    fix x assume "x \<in> insert u' (set db - {u})"
    then consider "x = u'" | "x \<in> set db" "x \<noteq> u" by blast
    then show "x \<in> (\<lambda>v. if v = u then u' else v) ` set db"
    proof cases
      case 1
      with assms(2) show ?thesis by (intro image_eqI[where x = u]) simp_all
    next
      case 2
      then show ?thesis by (intro image_eqI[where x = x]) simp_all
    qed
  qed
  finally show ?thesis .
qed

lemma ids_put: "id' u' = i \<Longrightarrow> map id' (put db i u') = map id' db"
  by (induction db) (simp_all add: put_def)

lemma fold_max_ge: "(a::int) \<le> fold max xs a \<and> (\<forall>x\<in>set xs. x \<le> fold max xs a)"
proof (induction xs arbitrary: a)
  case Nil
  show ?case by simp
next
  case (Cons x xs)
  from Cons[of "max x a"] show ?case by auto
qed

lemma next_id_fresh: "v \<in> set db \<Longrightarrow> id' v < next_id db"
proof (cases db)
  case Nil
  assume "v \<in> set db" with Nil show ?thesis by simp
next
  case (Cons w ws)
  assume "v \<in> set db"
  with Cons have "id' v = id' w \<or> id' v \<in> set (map id' ws)" by auto
  with fold_max_ge[of "id' w" "map id' ws"] have "id' v \<le> fold max (map id' ws) (id' w)" by auto
  with Cons show ?thesis by (simp add: next_id_def)
qed

lemma find_user_by_only:
  assumes "list_all hasattr kw" "distinct (map id' db)" "u \<in> set db" "list_all (matches u) kw"
    "\<forall>v\<in>set db. v \<noteq> u \<longrightarrow> \<not> list_all (matches v) kw"
  shows "find_user_by db kw = Inr u"
proof (rule find_user_by_sole[OF assms(1-4)])
  show "\<forall>v\<in>set db. list_all (matches v) kw \<longrightarrow> v = u"
  proof (intro ballI impI)
    fix v assume v: "v \<in> set db" and m: "list_all (matches v) kw"
    show "v = u"
    proof (rule ccontr)
      assume "v \<noteq> u"
      with assms(5) v have "\<not> list_all (matches v) kw" by blast
      with m show False by contradiction
    qed
  qed
qed

lemma put_mem:
  assumes "distinct (map id' db)" "u \<in> set db"
  shows "u' \<in> set (put db (id' u) u')"
  unfolding set_put[OF assms] by simp

lemma put_cases:
  assumes "distinct (map id' db)" "u \<in> set db" "v \<in> set (put db (id' u) u')"
  shows "v = u' \<or> (v \<in> set db \<and> v \<noteq> u)"
  using assms(3) unfolding set_put[OF assms(1,2)] by simp

lemma distinct_put:
  "distinct (map id' db) \<Longrightarrow> id' u' = i \<Longrightarrow> distinct (map id' (put db i u'))"
  by (simp only: ids_put)

lemma find_after_put:
  assumes "distinct (map id' db)" "u \<in> set db" "id' u' = id' u" "list_all hasattr kw"
    "list_all (matches u') kw" "\<forall>v\<in>set db. v \<noteq> u \<longrightarrow> \<not> list_all (matches v) kw"
  shows "find_user_by (put db (id' u) u') kw = Inr u'"
proof (rule find_user_by_only[OF assms(4)])
  show "distinct (map id' (put db (id' u) u'))" using assms(1,3) by (rule distinct_put)
  show "u' \<in> set (put db (id' u) u')" using assms(1,2) by (rule put_mem)
  show "list_all (matches u') kw" by (rule assms(5))
  show "\<forall>v\<in>set (put db (id' u) u'). v \<noteq> u' \<longrightarrow> \<not> list_all (matches v) kw"
  proof (intro ballI impI)
    fix v assume "v \<in> set (put db (id' u) u')" and "v \<noteq> u'"
    with put_cases[OF assms(1,2)] have "v \<in> set db \<and> v \<noteq> u" by blast
    with assms(6) show "\<not> list_all (matches v) kw" by blast
  qed
qed

lemma find_none_after_put:
  assumes "distinct (map id' db)" "u \<in> set db" "list_all hasattr kw"
    "\<not> list_all (matches u') kw" "\<forall>v\<in>set db. v \<noteq> u \<longrightarrow> \<not> list_all (matches v) kw"
  shows "find_user_by (put db (id' u) u') kw = Inl NoResultFound"
proof (rule find_user_by_none[OF assms(3)])
  show "\<forall>v\<in>set (put db (id' u) u'). \<not> list_all (matches v) kw"
  proof
    fix v assume "v \<in> set (put db (id' u) u')"
    with put_cases[OF assms(1,2)] have "v = u' \<or> (v \<in> set db \<and> v \<noteq> u)" by blast
    with assms(4,5) show "\<not> list_all (matches v) kw" by blast
  qed
qed

lemma update_user_none:
  "\<forall>v\<in>set db. id' v \<noteq> i \<Longrightarrow> update_user db i kw = (Inl NoResultFound, db)"
  by (simp add: update_user_def find_user_by_none)

section \<open>The service, one call at a time\<close>

lemma by_email_none:
  "\<forall>v\<in>set db. email v \<noteq> e \<Longrightarrow> find_user_by db [Email e] = Inl NoResultFound"
  by (rule find_user_by_none) simp_all

lemma by_email_only:
  assumes "distinct (map id' db)" "u \<in> set db" "email u = e"
    "\<forall>v\<in>set db. v \<noteq> u \<longrightarrow> email v \<noteq> e"
  shows "find_user_by db [Email e] = Inr u"
proof (rule find_user_by_only[OF _ assms(1,2)])
  show "list_all hasattr [Email e]" by simp
  show "list_all (matches u) [Email e]" using assms(3) by simp
  show "\<forall>v\<in>set db. v \<noteq> u \<longrightarrow> \<not> list_all (matches v) [Email e]" using assms(4) by simp
qed

lemma create_session_found:
  assumes "distinct (map id' db)" "u \<in> set db" "email u = e"
    "\<forall>v\<in>set db. v \<noteq> u \<longrightarrow> email v \<noteq> e"
  shows "create_session db uuid e =
           (Inr (Some uuid), put db (id' u) (u\<lparr>session_id := Some uuid\<rparr>))"
proof -
  have "update_user db (id' u) [Session_id (Some uuid)] =
          (Inr (), put db (id' u) (u\<lparr>session_id := Some uuid\<rparr>))"
    by (rule update_user_found[OF assms(1,2)]) simp
  then show ?thesis by (simp add: create_session_def by_email_only[OF assms])
qed

lemma create_session_missing:
  "\<forall>v\<in>set db. email v \<noteq> e \<Longrightarrow> create_session db uuid e = (Inl NoResultFound, db)"
  by (simp add: create_session_def by_email_none)

text \<open>
  C1, first half, as the code behaves: \<open>create_session\<close> has no handler for
  \<open>NoResultFound\<close>, so for an email that no row has the exception of the lookup leaves
  the function; \<open>None\<close> is not returned. Here on a table of two rows.
\<close>

theorem create_session_missing_raises:
  "create_session [alice, bob] ''0c4d'' ''missing@x.com'' = (Inl NoResultFound, [alice, bob])"
  by (simp add: create_session_def find_user_by_def matching_def alice_def bob_def)

text \<open>
  C7: \<open>valid_login\<close> returns \<open>False\<close>, and raises nothing, when no row has the email;
  when the email belongs to a row \<open>u\<close> (and to no other), it returns what
  \<open>bcrypt.checkpw\<close> says of the encoded password and the stored hash of \<open>u\<close>.
\<close>

theorem valid_login_spec:
  "((\<forall>v\<in>set db. email v \<noteq> e) \<longrightarrow> valid_login B db e p = Inr False) \<and>
   (distinct (map id' db) \<and> u \<in> set db \<and> email u = e \<and>
      (\<forall>v\<in>set db. v \<noteq> u \<longrightarrow> email v \<noteq> e) \<longrightarrow>
    valid_login B db e p = Inr (checkpw B (encode p) (hashed_password u)))"
proof (intro conjI impI)
  assume "\<forall>v\<in>set db. email v \<noteq> e"
  then show "valid_login B db e p = Inr False"
    by (simp add: valid_login_def by_email_none)
next
  assume "distinct (map id' db) \<and> u \<in> set db \<and> email u = e \<and>
      (\<forall>v\<in>set db. v \<noteq> u \<longrightarrow> email v \<noteq> e)"
  then have "find_user_by db [Email e] = Inr u" by (intro by_email_only) simp_all
  then show "valid_login B db e p = Inr (checkpw B (encode p) (hashed_password u))"
    by (simp add: valid_login_def)
qed

lemma encode_ascii [simp]: "encode ''old'' = ''old''" "encode ''new'' = ''new''"
  by (simp_all add: encode_def encode_char_def)

theorem valid_login_spec_witness:
  "valid_login demo_bcrypt [alice, bob] ''missing@x.com'' ''old'' = Inr False \<and>
   distinct (map id' [alice, bob]) \<and> alice \<in> set [alice, bob] \<and> email alice = ''alice@x.com'' \<and>
   valid_login demo_bcrypt [alice, bob] ''alice@x.com'' ''old'' = Inr True \<and>
   valid_login demo_bcrypt [alice, bob] ''alice@x.com'' ''new'' = Inr False"
  using valid_login_spec[of "[alice, bob]" "''missing@x.com''" demo_bcrypt "''old''" alice]
    valid_login_spec[of "[alice, bob]" "''alice@x.com''" demo_bcrypt "''old''" alice]
    valid_login_spec[of "[alice, bob]" "''alice@x.com''" demo_bcrypt "''new''" alice]
  by (simp add: alice_def bob_def demo_bcrypt_def)

lemma by_session_none:
  "\<forall>v\<in>set db. session_id v \<noteq> Some s \<Longrightarrow>
   find_user_by db [Session_id (Some s)] = Inl NoResultFound"
  by (rule find_user_by_none) simp_all

lemma by_session_only:
  assumes "distinct (map id' db)" "u \<in> set db" "session_id u = Some s"
    "\<forall>v\<in>set db. v \<noteq> u \<longrightarrow> session_id v \<noteq> Some s"
  shows "find_user_by db [Session_id (Some s)] = Inr u"
proof (rule find_user_by_only[OF _ assms(1,2)])
  show "list_all hasattr [Session_id (Some s)]" by simp
  show "list_all (matches u) [Session_id (Some s)]" using assms(3) by simp
  show "\<forall>v\<in>set db. v \<noteq> u \<longrightarrow> \<not> list_all (matches v) [Session_id (Some s)]"
    using assms(4) by simp
qed

lemma by_token_none:
  "\<forall>v\<in>set db. reset_token v \<noteq> Some t \<Longrightarrow>
   find_user_by db [Reset_token (Some t)] = Inl NoResultFound"
  by (rule find_user_by_none) simp_all

lemma by_token_only:
  assumes "distinct (map id' db)" "u \<in> set db" "reset_token u = Some t"
    "\<forall>v\<in>set db. v \<noteq> u \<longrightarrow> reset_token v \<noteq> Some t"
  shows "find_user_by db [Reset_token (Some t)] = Inr u"
proof (rule find_user_by_only[OF _ assms(1,2)])
  show "list_all hasattr [Reset_token (Some t)]" by simp
  show "list_all (matches u) [Reset_token (Some t)]" using assms(3) by simp
  show "\<forall>v\<in>set db. v \<noteq> u \<longrightarrow> \<not> list_all (matches v) [Reset_token (Some t)]"
    using assms(4) by simp
qed

text \<open>
  C10: when two or more rows satisfy a query, \<open>find_user_by\<close> raises
  \<open>InvalidRequestError\<close>, which is not \<open>NoResultFound\<close>; so for an email that two
  rows share \<open>valid_login\<close> and \<open>create_session\<close> raise it, and for a session id that
  two rows share \<open>get_user_from_session_id\<close> raises it, instead of returning \<open>False\<close>
  or \<open>None\<close>.
\<close>

theorem duplicate_rows_raise:
  "(2 \<le> length (matching db kw) \<longrightarrow>
      find_user_by db kw = Inl InvalidRequestError \<and> find_user_by db kw \<noteq> Inl NoResultFound) \<and>
   (2 \<le> length (filter (\<lambda>v. email v = e) db) \<longrightarrow>
      valid_login B db e p = Inl InvalidRequestError \<and>
      create_session db uuid e = (Inl InvalidRequestError, db)) \<and>
   (2 \<le> length (filter (\<lambda>v. session_id v = Some s) db) \<longrightarrow>
      get_user_from_session_id db (Some s) = Inl InvalidRequestError)"
proof (intro conjI impI)
  assume "2 \<le> length (matching db kw)"
  then have "find_user_by db kw = Inl InvalidRequestError" by (rule find_user_by_many)
  then show "find_user_by db kw = Inl InvalidRequestError"
    and "find_user_by db kw \<noteq> Inl NoResultFound" by simp_all
next
  assume "2 \<le> length (filter (\<lambda>v. email v = e) db)"
  then have "2 \<le> length (matching db [Email e])" by (simp add: matching_def)
  then have f: "find_user_by db [Email e] = Inl InvalidRequestError" by (rule find_user_by_many)
  from f show "valid_login B db e p = Inl InvalidRequestError" by (simp add: valid_login_def)
  from f show "create_session db uuid e = (Inl InvalidRequestError, db)"
    by (simp add: create_session_def)
next
  assume "2 \<le> length (filter (\<lambda>v. session_id v = Some s) db)"
  then have "2 \<le> length (matching db [Session_id (Some s)])" by (simp add: matching_def)
  then have "find_user_by db [Session_id (Some s)] = Inl InvalidRequestError"
    by (rule find_user_by_many)
  then show "get_user_from_session_id db (Some s) = Inl InvalidRequestError"
    by (simp add: get_user_from_session_id_def)
qed

theorem duplicate_rows_raise_witness:
  "find_user_by [alice, bob, carol] [Email ''alice@x.com''] = Inl InvalidRequestError \<and>
   valid_login demo_bcrypt [alice, bob, carol] ''alice@x.com'' ''old'' = Inl InvalidRequestError \<and>
   create_session [alice, bob, carol] ''0c4d'' ''alice@x.com''
     = (Inl InvalidRequestError, [alice, bob, carol]) \<and>
   get_user_from_session_id [alice, bob, carol] (Some ''5e1f'') = Inl InvalidRequestError"
  using duplicate_rows_raise[of "[alice, bob, carol]" "[Email ''alice@x.com'']" "''alice@x.com''"
      demo_bcrypt "''old''" "''0c4d''" "''5e1f''"]
  by (simp add: matching_def alice_def bob_def carol_def)

text \<open>
  C6 as stated fails for the empty string: the code tests \<open>session_id is None\<close> only,
  so the empty string is looked up like any other, and a row whose session id is the
  empty string is returned.
\<close>

theorem get_user_from_session_id_empty_string:
  "get_user_from_session_id [alice, eve] (Some '''') = Inr (Some eve)"
  by (simp add: get_user_from_session_id_def find_user_by_def matching_def alice_def eve_def)

text \<open>
  C6, amended: for an absent session id \<open>get_user_from_session_id\<close> returns \<open>None\<close>
  whatever the table holds; for every string, the empty one included, it looks the string
  up: it returns \<open>None\<close>, and raises nothing, when no row has that session id, and the
  row when exactly one has it.
\<close>

theorem get_user_from_session_id_spec:
  "get_user_from_session_id db None = Inr None \<and>
   ((\<forall>v\<in>set db. session_id v \<noteq> Some s) \<longrightarrow> get_user_from_session_id db (Some s) = Inr None) \<and>
   (distinct (map id' db) \<and> u \<in> set db \<and> session_id u = Some s \<and>
      (\<forall>v\<in>set db. v \<noteq> u \<longrightarrow> session_id v \<noteq> Some s) \<longrightarrow>
    get_user_from_session_id db (Some s) = Inr (Some u))"
proof (intro conjI impI)
  show "get_user_from_session_id db None = Inr None"
    by (simp add: get_user_from_session_id_def)
next
  assume "\<forall>v\<in>set db. session_id v \<noteq> Some s"
  then show "get_user_from_session_id db (Some s) = Inr None"
    by (simp add: get_user_from_session_id_def by_session_none)
next
  assume "distinct (map id' db) \<and> u \<in> set db \<and> session_id u = Some s \<and>
      (\<forall>v\<in>set db. v \<noteq> u \<longrightarrow> session_id v \<noteq> Some s)"
  then have "find_user_by db [Session_id (Some s)] = Inr u" by (intro by_session_only) simp_all
  then show "get_user_from_session_id db (Some s) = Inr (Some u)"
    by (simp add: get_user_from_session_id_def)
qed

theorem get_user_from_session_id_spec_witness:
  "get_user_from_session_id [alice, bob] None = Inr None \<and>
   get_user_from_session_id [alice, bob] (Some '''') = Inr None \<and>
   get_user_from_session_id [alice, bob] (Some ''0c4d'') = Inr None \<and>
   get_user_from_session_id [alice, bob] (Some ''5e1f'') = Inr (Some bob)"
  using get_user_from_session_id_spec[of "[alice, bob]" "''''" bob]
    get_user_from_session_id_spec[of "[alice, bob]" "''0c4d''" bob]
    get_user_from_session_id_spec[of "[alice, bob]" "''5e1f''" bob]
  by (simp add: alice_def bob_def)

lemma find_user_by_InrD:
  assumes "find_user_by db kw = Inr u"
  shows "matching db kw = [u]"
proof (cases "matching db kw")
  case Nil
  with assms show ?thesis by (simp add: find_user_by_def split: if_splits)
next
  case (Cons x xs)
  with assms show ?thesis by (cases xs) (simp_all add: find_user_by_def split: if_splits)
qed

lemma find_user_by_Inr_mem:
  assumes "find_user_by db kw = Inr u"
  shows "u \<in> set db \<and> list_all (matches u) kw"
proof -
  have "u \<in> set (matching db kw)" by (simp add: find_user_by_InrD[OF assms])
  then show ?thesis by (simp add: matching_def)
qed

lemma find_user_by_id_same:
  assumes "find_user_by db [Id (id' u)] = Inr w" "u \<in> set db"
  shows "w = u"
proof -
  from assms(2) have "u \<in> set (matching db [Id (id' u)])" by (simp add: matching_def)
  then show ?thesis by (simp add: find_user_by_InrD[OF assms(1)])
qed

lemma find_user_by_id_member:
  assumes "u \<in> set db"
  shows "find_user_by db [Id (id' u)] = Inr u \<or> find_user_by db [Id (id' u)] = Inl InvalidRequestError"
proof (cases "find_user_by db [Id (id' u)]")
  case (Inr w)
  with find_user_by_id_same[OF Inr assms] show ?thesis by simp
next
  case (Inl err)
  from assms have "u \<in> set (matching db [Id (id' u)])" by (simp add: matching_def)
  then have "matching db [Id (id' u)] \<noteq> []" by auto
  with Inl have "err = InvalidRequestError"
    by (cases "matching db [Id (id' u)]"; cases "tl (matching db [Id (id' u)])")
       (auto simp: find_user_by_def)
  with Inl show ?thesis by simp
qed

lemma update_user_member:
  assumes "u \<in> set db"
  shows "update_user db (id' u) kw = (Inl InvalidRequestError, db) \<or>
         update_user db (id' u) kw = (fst (update_loop u kw), put db (id' u) (snd (update_loop u kw)))"
  using find_user_by_id_member[OF assms]
  by (auto simp: update_user_def split: prod.splits)

lemma update_password_found:
  assumes "distinct (map id' db)" "u \<in> set db" "reset_token u = Some t"
    "\<forall>v\<in>set db. v \<noteq> u \<longrightarrow> reset_token v \<noteq> Some t"
  shows "update_password B db salt t p =
           (Inr (), put db (id' u)
              (u\<lparr>hashed_password := auth_hash_password B salt p, reset_token := None\<rparr>))"
proof -
  have "update_user db (id' u) [Hashed_password (auth_hash_password B salt p), Reset_token None] =
          (Inr (), put db (id' u)
             (u\<lparr>hashed_password := auth_hash_password B salt p, reset_token := None\<rparr>))"
    by (rule update_user_found[OF assms(1,2)]) simp
  then show ?thesis by (simp add: update_password_def by_token_only[OF assms])
qed

lemma update_password_missing:
  "\<forall>v\<in>set db. reset_token v \<noteq> Some t \<Longrightarrow>
   update_password B db salt t p = (Inl (ValueError ''Invalid reset token''), db)"
  by (simp add: update_password_def by_token_none)

lemma update_password_outcomes:
  assumes "update_password B db salt t p = (r, db')"
  shows "(r \<noteq> Inr () \<and> db' = db) \<or>
         (r = Inr () \<and> (\<exists>u. u \<in> set db \<and> reset_token u = Some t \<and>
            db' = put db (id' u)
              (u\<lparr>hashed_password := auth_hash_password B salt p, reset_token := None\<rparr>)))"
proof (cases "find_user_by db [Reset_token (Some t)]")
  case (Inl err)
  with assms show ?thesis by (cases err) (auto simp: update_password_def)
next
  case (Inr u)
  from find_user_by_Inr_mem[OF Inr] have u: "u \<in> set db" and t: "reset_token u = Some t"
    by simp_all
  let ?kw = "[Hashed_password (auth_hash_password B salt p), Reset_token None]"
  from update_user_member[OF u, of ?kw] show ?thesis
  proof
    assume "update_user db (id' u) ?kw = (Inl InvalidRequestError, db)"
    with assms Inr show ?thesis by (auto simp: update_password_def)
  next
    assume "update_user db (id' u) ?kw =
              (fst (update_loop u ?kw), put db (id' u) (snd (update_loop u ?kw)))"
    with assms Inr have "r = Inr ()"
      and "db' = put db (id' u)
             (u\<lparr>hashed_password := auth_hash_password B salt p, reset_token := None\<rparr>)"
      by (auto simp: update_password_def)
    with u t show ?thesis by blast
  qed
qed

text \<open>
  C2: \<open>update_password\<close> fails with the \<open>ValueError\<close> "Invalid reset token" when no
  row holds the token; when exactly one row holds it, the row gets the new hash and a
  cleared token in one call of \<open>update_user\<close>; and whatever the table, a call either
  fails and leaves the table as it was, or succeeds and leaves a row of the token with
  both fields changed: no table with only one of the two changes is returned.
\<close>

theorem update_password_spec:
  "((\<forall>v\<in>set db. reset_token v \<noteq> Some t) \<longrightarrow>
      update_password B db salt t p = (Inl (ValueError ''Invalid reset token''), db)) \<and>
   (distinct (map id' db) \<and> u \<in> set db \<and> reset_token u = Some t \<and>
      (\<forall>v\<in>set db. v \<noteq> u \<longrightarrow> reset_token v \<noteq> Some t) \<longrightarrow>
    update_password B db salt t p =
      (Inr (), put db (id' u)
         (u\<lparr>hashed_password := auth_hash_password B salt p, reset_token := None\<rparr>))) \<and>
   (update_password B db salt t p = (r, db') \<longrightarrow>
      (r \<noteq> Inr () \<and> db' = db) \<or>
      (r = Inr () \<and> (\<exists>w. w \<in> set db \<and> reset_token w = Some t \<and>
         db' = put db (id' w)
           (w\<lparr>hashed_password := auth_hash_password B salt p, reset_token := None\<rparr>))))"
proof (intro conjI impI)
  assume "\<forall>v\<in>set db. reset_token v \<noteq> Some t"
  then show "update_password B db salt t p = (Inl (ValueError ''Invalid reset token''), db)"
    by (rule update_password_missing)
next
  assume "distinct (map id' db) \<and> u \<in> set db \<and> reset_token u = Some t \<and>
      (\<forall>v\<in>set db. v \<noteq> u \<longrightarrow> reset_token v \<noteq> Some t)"
  then show "update_password B db salt t p =
      (Inr (), put db (id' u)
         (u\<lparr>hashed_password := auth_hash_password B salt p, reset_token := None\<rparr>))"
    by (intro update_password_found) simp_all
next
  assume "update_password B db salt t p = (r, db')"
  then show "(r \<noteq> Inr () \<and> db' = db) \<or>
      (r = Inr () \<and> (\<exists>w. w \<in> set db \<and> reset_token w = Some t \<and>
         db' = put db (id' w)
           (w\<lparr>hashed_password := auth_hash_password B salt p, reset_token := None\<rparr>)))"
    by (rule update_password_outcomes)
qed

theorem update_password_spec_witness:
  "update_password demo_bcrypt [alice, bob] ''s9'' ''0c4d'' ''new''
     = (Inl (ValueError ''Invalid reset token''), [alice, bob]) \<and>
   update_password demo_bcrypt [alice, bob] ''s9'' ''77aa'' ''new''
     = (Inr (), [alice, bob\<lparr>hashed_password := ''s9wen'', reset_token := None\<rparr>])"
  using update_password_spec[of "[alice, bob]" "''0c4d''" demo_bcrypt "''s9''" "''new''" bob
      "Inl (ValueError ''Invalid reset token'')" "[alice, bob]"]
    update_password_spec[of "[alice, bob]" "''77aa''" demo_bcrypt "''s9''" "''new''" bob
      "Inr ()" "[alice, bob\<lparr>hashed_password := ''s9wen'', reset_token := None\<rparr>]"]
  by (simp add: alice_def bob_def demo_bcrypt_def put_def auth_hash_password_def)

lemma get_reset_password_token_found:
  assumes "distinct (map id' db)" "u \<in> set db" "email u = e"
    "\<forall>v\<in>set db. v \<noteq> u \<longrightarrow> email v \<noteq> e"
  shows "get_reset_password_token db uuid e =
           (Inr uuid, put db (id' u) (u\<lparr>reset_token := Some uuid\<rparr>))"
proof -
  have "update_user db (id' u) [Reset_token (Some uuid)] =
          (Inr (), put db (id' u) (u\<lparr>reset_token := Some uuid\<rparr>))"
    by (rule update_user_found[OF assms(1,2)]) simp
  then show ?thesis by (simp add: get_reset_password_token_def by_email_only[OF assms])
qed

lemma get_reset_password_token_missing:
  "\<forall>v\<in>set db. email v \<noteq> e \<Longrightarrow>
   get_reset_password_token db uuid e = (Inl (ValueError ''User not found''), db)"
  by (simp add: get_reset_password_token_def by_email_none)

lemma others_put:
  assumes "distinct (map id' db)" "u \<in> set db" "\<forall>v\<in>set db. v \<noteq> u \<longrightarrow> P v"
  shows "\<forall>v\<in>set (put db (id' u) u'). v \<noteq> u' \<longrightarrow> P v"
proof (intro ballI impI)
  fix v assume "v \<in> set (put db (id' u) u')" and "v \<noteq> u'"
  with put_cases[OF assms(1,2)] have "v \<in> set db \<and> v \<noteq> u" by blast
  with assms(3) show "P v" by blast
qed

lemma by_email_after_put:
  assumes "distinct (map id' db)" "u \<in> set db" "id' u' = id' u" "email u' = e"
    "\<forall>v\<in>set db. v \<noteq> u \<longrightarrow> email v \<noteq> e"
  shows "find_user_by (put db (id' u) u') [Email e] = Inr u'"
proof (rule find_after_put[OF assms(1-3)])
  show "list_all hasattr [Email e]" by simp
  show "list_all (matches u') [Email e]" using assms(4) by simp
  show "\<forall>v\<in>set db. v \<noteq> u \<longrightarrow> \<not> list_all (matches v) [Email e]" using assms(5) by simp
qed

text \<open>
  C8: \<open>get_reset_password_token\<close> fails with the \<open>ValueError\<close> "User not found" when no
  row has the email; when the email belongs to a row \<open>u\<close> (and to no other), it returns
  the identifier drawn, and the table holds \<open>u\<close> with that identifier as its reset token:
  a lookup by the email then returns it.
\<close>

theorem get_reset_password_token_spec:
  "((\<forall>v\<in>set db. email v \<noteq> e) \<longrightarrow>
      get_reset_password_token db uuid e = (Inl (ValueError ''User not found''), db)) \<and>
   (distinct (map id' db) \<and> u \<in> set db \<and> email u = e \<and>
      (\<forall>v\<in>set db. v \<noteq> u \<longrightarrow> email v \<noteq> e) \<longrightarrow>
    get_reset_password_token db uuid e =
      (Inr uuid, put db (id' u) (u\<lparr>reset_token := Some uuid\<rparr>)) \<and>
    find_user_by (snd (get_reset_password_token db uuid e)) [Email e] =
      Inr (u\<lparr>reset_token := Some uuid\<rparr>))"
proof (intro conjI impI)
  assume "\<forall>v\<in>set db. email v \<noteq> e"
  then show "get_reset_password_token db uuid e = (Inl (ValueError ''User not found''), db)"
    by (rule get_reset_password_token_missing)
next
  assume h: "distinct (map id' db) \<and> u \<in> set db \<and> email u = e \<and>
      (\<forall>v\<in>set db. v \<noteq> u \<longrightarrow> email v \<noteq> e)"
  then show r: "get_reset_password_token db uuid e =
      (Inr uuid, put db (id' u) (u\<lparr>reset_token := Some uuid\<rparr>))"
    by (intro get_reset_password_token_found) simp_all
  from h have "find_user_by (put db (id' u) (u\<lparr>reset_token := Some uuid\<rparr>)) [Email e] =
      Inr (u\<lparr>reset_token := Some uuid\<rparr>)"
    by (intro by_email_after_put) simp_all
  with r show "find_user_by (snd (get_reset_password_token db uuid e)) [Email e] =
      Inr (u\<lparr>reset_token := Some uuid\<rparr>)" by simp
qed

theorem get_reset_password_token_spec_witness:
  "get_reset_password_token [alice, bob] ''0c4d'' ''missing@x.com''
     = (Inl (ValueError ''User not found''), [alice, bob]) \<and>
   get_reset_password_token [alice, bob] ''0c4d'' ''alice@x.com''
     = (Inr ''0c4d'', [alice\<lparr>reset_token := Some ''0c4d''\<rparr>, bob])"
  using get_reset_password_token_spec[of "[alice, bob]" "''missing@x.com''" "''0c4d''" alice]
    get_reset_password_token_spec[of "[alice, bob]" "''alice@x.com''" "''0c4d''" alice]
  by (simp add: alice_def bob_def put_def)

lemma register_user_new:
  assumes "\<forall>v\<in>set db. email v \<noteq> e"
  shows "register_user B db salt e p =
           (Inr \<lparr>id' = next_id db, email = e, hashed_password = auth_hash_password B salt p,
                  session_id = None, reset_token = None\<rparr>,
            db @ [\<lparr>id' = next_id db, email = e, hashed_password = auth_hash_password B salt p,
                  session_id = None, reset_token = None\<rparr>])"
  by (simp add: register_user_def by_email_none[OF assms] add_user_def Let_def)

lemma register_user_exists:
  assumes "distinct (map id' db)" "u \<in> set db" "email u = e"
    "\<forall>v\<in>set db. v \<noteq> u \<longrightarrow> email v \<noteq> e"
  shows "register_user B db salt e p =
           (Inl (ValueError (''User '' @ e @ '' already exists'')), db)"
  by (simp add: register_user_def by_email_only[OF assms])

text \<open>
  C5: \<open>register_user\<close> fails with the \<open>ValueError\<close> "User e already exists" when the
  email \<open>e\<close> belongs to a row, and the table, that row included, stays as it was;
  when no row has the email, it hashes the password, appends a row with a key that no
  row had, the email and the hash, and returns that row.
\<close>

theorem register_user_spec:
  "(distinct (map id' db) \<and> u \<in> set db \<and> email u = e \<and>
      (\<forall>v\<in>set db. v \<noteq> u \<longrightarrow> email v \<noteq> e) \<longrightarrow>
    register_user B db salt e p = (Inl (ValueError (''User '' @ e @ '' already exists'')), db)) \<and>
   ((\<forall>v\<in>set db. email v \<noteq> e) \<longrightarrow>
    (\<exists>new. register_user B db salt e p = (Inr new, db @ [new]) \<and>
       email new = e \<and> hashed_password new = hashpw B (encode p) salt \<and>
       session_id new = None \<and> reset_token new = None \<and> id' new \<notin> id' ` set db))"
proof (intro conjI impI)
  assume "distinct (map id' db) \<and> u \<in> set db \<and> email u = e \<and>
      (\<forall>v\<in>set db. v \<noteq> u \<longrightarrow> email v \<noteq> e)"
  then show "register_user B db salt e p =
      (Inl (ValueError (''User '' @ e @ '' already exists'')), db)"
    by (intro register_user_exists[where u = u]) simp_all
next
  assume a: "\<forall>v\<in>set db. email v \<noteq> e"
  let ?new = "\<lparr>id' = next_id db, email = e, hashed_password = auth_hash_password B salt p,
                session_id = None, reset_token = None\<rparr>"
  have "next_id db \<notin> id' ` set db"
  proof
    assume "next_id db \<in> id' ` set db"
    then obtain v where "v \<in> set db" "id' v = next_id db" by auto
    with next_id_fresh[of v db] show False by simp
  qed
  then have "register_user B db salt e p = (Inr ?new, db @ [?new]) \<and>
       email ?new = e \<and> hashed_password ?new = hashpw B (encode p) salt \<and>
       session_id ?new = None \<and> reset_token ?new = None \<and> id' ?new \<notin> id' ` set db"
    by (simp add: register_user_new[OF a] auth_hash_password_def)
  then show "\<exists>new. register_user B db salt e p = (Inr new, db @ [new]) \<and>
       email new = e \<and> hashed_password new = hashpw B (encode p) salt \<and>
       session_id new = None \<and> reset_token new = None \<and> id' new \<notin> id' ` set db"
    by (rule exI)
qed

theorem register_user_spec_witness:
  "register_user demo_bcrypt [alice, bob] ''s9'' ''alice@x.com'' ''new''
     = (Inl (ValueError ''User alice@x.com already exists''), [alice, bob]) \<and>
   register_user demo_bcrypt [alice, bob] ''s9'' ''dan@x.com'' ''new''
     = (Inr \<lparr>id' = 3, email = ''dan@x.com'', hashed_password = ''s9wen'',
              session_id = None, reset_token = None\<rparr>,
        [alice, bob, \<lparr>id' = 3, email = ''dan@x.com'', hashed_password = ''s9wen'',
              session_id = None, reset_token = None\<rparr>])"
  using register_user_spec[of "[alice, bob]" alice "''alice@x.com''" demo_bcrypt "''s9''" "''new''"]
    register_user_spec[of "[alice, bob]" alice "''dan@x.com''" demo_bcrypt "''s9''" "''new''"]
  by (simp add: alice_def bob_def demo_bcrypt_def register_user_new auth_hash_password_def next_id_def)

text \<open>
  C3: let the email \<open>e\<close> belong to the row \<open>u\<close> and to no other, let no other row hold
  the reset token \<open>t\<close> that is drawn, and let the hashing library accept \<open>newPw\<close> for
  the hash made of it and reject \<open>oldPw\<close> for that hash. Then
  \<open>get_reset_password_token\<close> returns \<open>t\<close>, \<open>update_password\<close> with \<open>t\<close> and
  \<open>newPw\<close> succeeds, afterwards \<open>valid_login\<close> is \<open>True\<close> for \<open>newPw\<close> and \<open>False\<close>
  for \<open>oldPw\<close>, and a second \<open>update_password\<close> with \<open>t\<close> fails with the
  \<open>ValueError\<close> "Invalid reset token".
\<close>

theorem reset_password_flow:
  assumes "distinct (map id' db)" and "u \<in> set db" and "email u = e"
    and "\<forall>v\<in>set db. v \<noteq> u \<longrightarrow> email v \<noteq> e"
    and "\<forall>v\<in>set db. v \<noteq> u \<longrightarrow> reset_token v \<noteq> Some t"
    and "checkpw B (encode newPw) (hashpw B (encode newPw) salt)"
    and "\<not> checkpw B (encode oldPw) (hashpw B (encode newPw) salt)"
  shows "case get_reset_password_token db t e of (r1, db1) \<Rightarrow>
           r1 = Inr t \<and>
           (case update_password B db1 salt t newPw of (r2, db2) \<Rightarrow>
              r2 = Inr () \<and>
              valid_login B db2 e newPw = Inr True \<and>
              valid_login B db2 e oldPw = Inr False \<and>
              update_password B db2 salt' t anotherPw
                = (Inl (ValueError ''Invalid reset token''), db2))"
proof -
  let ?u1 = "u\<lparr>reset_token := Some t\<rparr>"
  let ?db1 = "put db (id' u) ?u1"
  let ?u2 = "?u1\<lparr>hashed_password := auth_hash_password B salt newPw, reset_token := None\<rparr>"
  let ?db2 = "put ?db1 (id' ?u1) ?u2"
  have s1: "get_reset_password_token db t e = (Inr t, ?db1)"
    by (rule get_reset_password_token_found[OF assms(1-4)])
  have d1: "distinct (map id' ?db1)" using assms(1) by (intro distinct_put) simp_all
  have m1: "?u1 \<in> set ?db1" by (rule put_mem[OF assms(1,2)])
  have o1t: "\<forall>v\<in>set ?db1. v \<noteq> ?u1 \<longrightarrow> reset_token v \<noteq> Some t"
    by (rule others_put[OF assms(1,2,5)])
  have o1e: "\<forall>v\<in>set ?db1. v \<noteq> ?u1 \<longrightarrow> email v \<noteq> e"
    by (rule others_put[OF assms(1,2,4)])
  have s2: "update_password B ?db1 salt t newPw = (Inr (), ?db2)"
    by (rule update_password_found[OF d1 m1 _ o1t]) simp
  have "find_user_by ?db2 [Email e] = Inr ?u2"
    by (rule by_email_after_put[OF d1 m1 _ _ o1e]) (simp_all add: assms(3))
  then have login: "\<And>pw. valid_login B ?db2 e pw =
      Inr (checkpw B (encode pw) (hashpw B (encode newPw) salt))"
    by (simp add: valid_login_def auth_hash_password_def)
  have "\<forall>v\<in>set ?db2. reset_token v \<noteq> Some t"
  proof
    fix v assume "v \<in> set ?db2"
    with put_cases[OF d1 m1] have "v = ?u2 \<or> (v \<in> set ?db1 \<and> v \<noteq> ?u1)" by blast
    then show "reset_token v \<noteq> Some t"
    proof
      assume "v = ?u2" then show ?thesis by simp
    next
      assume "v \<in> set ?db1 \<and> v \<noteq> ?u1" with o1t show ?thesis by blast
    qed
  qed
  then have s3: "update_password B ?db2 salt' t anotherPw
      = (Inl (ValueError ''Invalid reset token''), ?db2)"
    by (rule update_password_missing)
  from s1 s2 s3 login assms(6,7) show ?thesis by simp
qed

theorem reset_password_flow_witness:
  "(case get_reset_password_token [alice, bob] ''0c4d'' ''alice@x.com'' of (r1, db1) \<Rightarrow>
      r1 = Inr ''0c4d'' \<and>
      (case update_password demo_bcrypt db1 ''s9'' ''0c4d'' ''new'' of (r2, db2) \<Rightarrow>
         r2 = Inr () \<and>
         valid_login demo_bcrypt db2 ''alice@x.com'' ''new'' = Inr True \<and>
         valid_login demo_bcrypt db2 ''alice@x.com'' ''old'' = Inr False \<and>
         update_password demo_bcrypt db2 ''s8'' ''0c4d'' ''other''
           = (Inl (ValueError ''Invalid reset token''), db2))) \<and>
   valid_login demo_bcrypt [alice, bob] ''alice@x.com'' ''old'' = Inr True"
proof -
  have old: "valid_login demo_bcrypt [alice, bob] ''alice@x.com'' ''old'' = Inr True"
    by (simp add: valid_login_def find_user_by_def matching_def alice_def bob_def demo_bcrypt_def)
  have "distinct (map id' [alice, bob])" "alice \<in> set [alice, bob]"
    "email alice = ''alice@x.com''"
    "\<forall>v\<in>set [alice, bob]. v \<noteq> alice \<longrightarrow> email v \<noteq> ''alice@x.com''"
    "\<forall>v\<in>set [alice, bob]. v \<noteq> alice \<longrightarrow> reset_token v \<noteq> Some ''0c4d''"
    "checkpw demo_bcrypt (encode ''new'') (hashpw demo_bcrypt (encode ''new'') ''s9'')"
    "\<not> checkpw demo_bcrypt (encode ''old'') (hashpw demo_bcrypt (encode ''new'') ''s9'')"
    by (simp_all add: alice_def bob_def demo_bcrypt_def)
  from reset_password_flow[OF this, of "''s8''" "''other''"] old show ?thesis by simp
qed

lemma destroy_session_found:
  assumes "distinct (map id' db)" "u \<in> set db"
  shows "destroy_session db (id' u) = (Inr (), put db (id' u) (u\<lparr>session_id := None\<rparr>))"
  unfolding destroy_session_def by (rule update_user_found[OF assms]) simp

text \<open>
  C4: let the email \<open>e\<close> belong to the row \<open>u\<close> and to no other, and let no other row
  hold the session id \<open>t\<close> that is drawn. Then \<open>create_session\<close> returns \<open>t\<close>,
  \<open>get_user_from_session_id\<close> with \<open>t\<close> returns the row \<open>u\<close>, now with the session id
  \<open>t\<close>; after \<open>destroy_session\<close> with the key of \<open>u\<close> it returns \<open>None\<close>. And
  \<open>destroy_session\<close> with a key that no row has raises \<open>NoResultFound\<close>.
\<close>

theorem session_flow:
  "(distinct (map id' db) \<and> u \<in> set db \<and> email u = e \<and>
      (\<forall>v\<in>set db. v \<noteq> u \<longrightarrow> email v \<noteq> e) \<and>
      (\<forall>v\<in>set db. v \<noteq> u \<longrightarrow> session_id v \<noteq> Some t) \<longrightarrow>
    (case create_session db t e of (r1, db1) \<Rightarrow>
       r1 = Inr (Some t) \<and>
       get_user_from_session_id db1 (Some t) = Inr (Some (u\<lparr>session_id := Some t\<rparr>)) \<and>
       (case destroy_session db1 (id' u) of (r2, db2) \<Rightarrow>
          r2 = Inr () \<and> get_user_from_session_id db2 (Some t) = Inr None))) \<and>
   ((\<forall>v\<in>set db. id' v \<noteq> i) \<longrightarrow> destroy_session db i = (Inl NoResultFound, db))"
proof (intro conjI impI)
  assume h: "distinct (map id' db) \<and> u \<in> set db \<and> email u = e \<and>
      (\<forall>v\<in>set db. v \<noteq> u \<longrightarrow> email v \<noteq> e) \<and>
      (\<forall>v\<in>set db. v \<noteq> u \<longrightarrow> session_id v \<noteq> Some t)"
  then have d: "distinct (map id' db)" and m: "u \<in> set db" and e: "email u = e"
    and oe: "\<forall>v\<in>set db. v \<noteq> u \<longrightarrow> email v \<noteq> e"
    and os: "\<forall>v\<in>set db. v \<noteq> u \<longrightarrow> session_id v \<noteq> Some t" by simp_all
  let ?u1 = "u\<lparr>session_id := Some t\<rparr>"
  let ?db1 = "put db (id' u) ?u1"
  let ?u2 = "?u1\<lparr>session_id := None\<rparr>"
  let ?db2 = "put ?db1 (id' ?u1) ?u2"
  have s1: "create_session db t e = (Inr (Some t), ?db1)"
    by (rule create_session_found[OF d m e oe])
  have d1: "distinct (map id' ?db1)" using d by (intro distinct_put) simp_all
  have m1: "?u1 \<in> set ?db1" by (rule put_mem[OF d m])
  have o1: "\<forall>v\<in>set ?db1. v \<noteq> ?u1 \<longrightarrow> session_id v \<noteq> Some t"
    by (rule others_put[OF d m os])
  have "find_user_by ?db1 [Session_id (Some t)] = Inr ?u1"
    by (rule by_session_only[OF d1 m1 _ o1]) simp
  then have g1: "get_user_from_session_id ?db1 (Some t) = Inr (Some ?u1)"
    by (simp add: get_user_from_session_id_def)
  have s2: "destroy_session ?db1 (id' ?u1) = (Inr (), ?db2)"
    by (rule destroy_session_found[OF d1 m1])
  have "\<forall>v\<in>set ?db2. session_id v \<noteq> Some t"
  proof
    fix v assume "v \<in> set ?db2"
    with put_cases[OF d1 m1] have "v = ?u2 \<or> (v \<in> set ?db1 \<and> v \<noteq> ?u1)" by blast
    then show "session_id v \<noteq> Some t"
    proof
      assume "v = ?u2" then show ?thesis by simp
    next
      assume "v \<in> set ?db1 \<and> v \<noteq> ?u1" with o1 show ?thesis by blast
    qed
  qed
  then have g2: "get_user_from_session_id ?db2 (Some t) = Inr None"
    by (simp add: get_user_from_session_id_def by_session_none)
  from s2 have s2': "destroy_session ?db1 (id' u) = (Inr (), ?db2)" by simp
  from s1 g1 s2' g2 show "case create_session db t e of (r1, db1) \<Rightarrow>
       r1 = Inr (Some t) \<and>
       get_user_from_session_id db1 (Some t) = Inr (Some (u\<lparr>session_id := Some t\<rparr>)) \<and>
       (case destroy_session db1 (id' u) of (r2, db2) \<Rightarrow>
          r2 = Inr () \<and> get_user_from_session_id db2 (Some t) = Inr None)"
    by simp
next
  assume "\<forall>v\<in>set db. id' v \<noteq> i"
  then show "destroy_session db i = (Inl NoResultFound, db)"
    unfolding destroy_session_def by (rule update_user_none)
qed

theorem session_flow_witness:
  "(case create_session [alice, bob] ''0c4d'' ''alice@x.com'' of (r1, db1) \<Rightarrow>
      r1 = Inr (Some ''0c4d'') \<and>
      get_user_from_session_id db1 (Some ''0c4d'')
        = Inr (Some (alice\<lparr>session_id := Some ''0c4d''\<rparr>)) \<and>
      (case destroy_session db1 (id' alice) of (r2, db2) \<Rightarrow>
         r2 = Inr () \<and> get_user_from_session_id db2 (Some ''0c4d'') = Inr None)) \<and>
   destroy_session [alice, bob] 7 = (Inl NoResultFound, [alice, bob])"
proof -
  note flow = session_flow[of "[alice, bob]" alice "''alice@x.com''" "''0c4d''" 7]
  have h1: "distinct (map id' [alice, bob]) \<and> alice \<in> set [alice, bob] \<and>
      email alice = ''alice@x.com'' \<and>
      (\<forall>v\<in>set [alice, bob]. v \<noteq> alice \<longrightarrow> email v \<noteq> ''alice@x.com'') \<and>
      (\<forall>v\<in>set [alice, bob]. v \<noteq> alice \<longrightarrow> session_id v \<noteq> Some ''0c4d'')"
    by (simp add: alice_def bob_def)
  have h2: "\<forall>v\<in>set [alice, bob]. id' v \<noteq> 7"
    by (simp add: alice_def bob_def)
  from flow[THEN conjunct1, THEN mp, OF h1] flow[THEN conjunct2, THEN mp, OF h2]
  show ?thesis by (rule conjI)
qed

text \<open>
  C9: if the library verifies every password against the hash it made of that password,
  whatever the salt, then so do both pairs of this repository: \<open>is_valid\<close> accepts what
  \<open>hash_password\<close> returns, \<open>bcrypt.checkpw\<close> on the encoded password accepts what
  \<open>_hash_password\<close> returns, and a password with which a user was registered logs in.
\<close>

theorem hash_then_verify:
  assumes "bcrypt_roundtrip B"
  shows "is_valid B (hash_password B salt p) p \<and>
         checkpw B (encode p) (auth_hash_password B salt p) \<and>
         ((\<forall>v\<in>set db. email v \<noteq> e) \<longrightarrow>
            valid_login B (snd (register_user B db salt e p)) e p = Inr True)"
proof (intro conjI impI)
  from assms show "is_valid B (hash_password B salt p) p"
    by (simp add: bcrypt_roundtrip_def is_valid_def hash_password_def)
  from assms show c: "checkpw B (encode p) (auth_hash_password B salt p)"
    by (simp add: bcrypt_roundtrip_def auth_hash_password_def)
  assume a: "\<forall>v\<in>set db. email v \<noteq> e"
  let ?new = "\<lparr>id' = next_id db, email = e, hashed_password = auth_hash_password B salt p,
                session_id = None, reset_token = None\<rparr>"
  from a have "filter (\<lambda>v. email v = e) db = []" by (simp add: filter_empty_conv)
  then have "matching (db @ [?new]) [Email e] = [?new]" by (simp add: matching_def)
  then have "find_user_by (db @ [?new]) [Email e] = Inr ?new" by (simp add: find_user_by_def)
  with c show "valid_login B (snd (register_user B db salt e p)) e p = Inr True"
    by (simp add: register_user_new[OF a] valid_login_def)
qed

theorem hash_then_verify_witness:
  "is_valid demo_bcrypt (hash_password demo_bcrypt ''s9'' ''new'') ''new'' \<and>
   checkpw demo_bcrypt (encode ''new'') (auth_hash_password demo_bcrypt ''s9'' ''new'') \<and>
   valid_login demo_bcrypt (snd (register_user demo_bcrypt [alice, bob] ''s9'' ''dan@x.com'' ''new''))
     ''dan@x.com'' ''new'' = Inr True"
proof -
  have "bcrypt_roundtrip demo_bcrypt" by (simp add: bcrypt_roundtrip_def demo_bcrypt_def)
  moreover have "\<forall>v\<in>set [alice, bob]. email v \<noteq> ''dan@x.com''"
    by (simp add: alice_def bob_def)
  ultimately show ?thesis
    using hash_then_verify[of demo_bcrypt "''s9''" "''new''" "[alice, bob]" "''dan@x.com''"]
    by simp
qed

section \<open>Uniqueness of keys and emails\<close>

lemma update_loop_keeps:
  "\<forall>j. Id j \<notin> set kw \<Longrightarrow> \<forall>x. Email x \<notin> set kw \<Longrightarrow>
   id' (snd (update_loop u kw)) = id' u \<and> email (snd (update_loop u kw)) = email u"
proof (induction kw arbitrary: u)
  case Nil
  show ?case by simp
next
  case (Cons kv kw)
  from Cons.prems have "\<And>j. kv \<noteq> Id j" and "\<And>x. kv \<noteq> Email x" by auto
  then have "id' (setattr u kv) = id' u \<and> email (setattr u kv) = email u"
    by (cases kv) auto
  moreover from Cons.prems have "id' (snd (update_loop (setattr u kv) kw)) = id' (setattr u kv) \<and>
      email (snd (update_loop (setattr u kv) kw)) = email (setattr u kv)"
    by (intro Cons.IH) simp_all
  ultimately show ?case by simp
qed

lemma emails_put:
  assumes "\<forall>v\<in>set db. id' v = i \<longrightarrow> email v = email u'"
  shows "map email (put db i u') = map email db"
  using assms by (induction db) (simp_all add: put_def)

lemma update_user_keeps:
  assumes "\<forall>j. Id j \<notin> set kw" "\<forall>x. Email x \<notin> set kw"
  shows "map id' (snd (update_user db i kw)) = map id' db \<and>
         map email (snd (update_user db i kw)) = map email db"
proof (cases "find_user_by db [Id i]")
  case (Inl err)
  then show ?thesis by (simp add: update_user_def)
next
  case (Inr user)
  let ?u' = "snd (update_loop user kw)"
  from find_user_by_Inr_mem[OF Inr] have i: "id' user = i" by simp
  from update_loop_keeps[OF assms, of user]
  have k: "id' ?u' = id' user" "email ?u' = email user" by simp_all
  have "\<forall>v\<in>set db. id' v = i \<longrightarrow> email v = email ?u'"
  proof (intro ballI impI)
    fix v assume "v \<in> set db" "id' v = i"
    then have "v \<in> set (matching db [Id i])" by (simp add: matching_def)
    then have "v = user" by (simp add: find_user_by_InrD[OF Inr])
    with k show "email v = email ?u'" by simp
  qed
  then have "map email (put db i ?u') = map email db" by (rule emails_put)
  moreover from k i have "map id' (put db i ?u') = map id' db" by (intro ids_put) simp
  ultimately show ?thesis using Inr by (simp add: update_user_def case_prod_beta)
qed

lemma by_email_cases:
  "(\<exists>u. find_user_by db [Email e] = Inr u \<and> u \<in> set db \<and> email u = e) \<or>
   (find_user_by db [Email e] = Inl NoResultFound \<and> (\<forall>v\<in>set db. email v \<noteq> e)) \<or>
   find_user_by db [Email e] = Inl InvalidRequestError"
proof (cases "find_user_by db [Email e]")
  case (Inr u)
  with find_user_by_Inr_mem[OF Inr] show ?thesis by simp
next
  case (Inl err)
  show ?thesis
  proof (cases "matching db [Email e]")
    case Nil
    then have "\<forall>v\<in>set db. email v \<noteq> e" by (simp add: matching_def filter_empty_conv)
    moreover from Nil have "find_user_by db [Email e] = Inl NoResultFound"
      by (simp add: find_user_by_def)
    ultimately show ?thesis by simp
  next
    case (Cons x xs)
    with Inl show ?thesis by (cases xs) (simp_all add: find_user_by_def)
  qed
qed

text \<open>
  The two uniqueness properties of the table, of the keys (the primary key constraint)
  and of the emails (the data model of the service), hold of the empty table and are
  kept by every operation of the service, whatever it returns.
\<close>

lemma register_user_keeps:
  assumes "distinct (map id' db)" "distinct (map email db)"
  shows "distinct (map id' (snd (register_user B db salt e p))) \<and>
         distinct (map email (snd (register_user B db salt e p)))"
  using by_email_cases[of db e]
proof (elim disjE exE conjE)
  fix u assume "find_user_by db [Email e] = Inr u"
  with assms show ?thesis by (simp add: register_user_def)
next
  assume n: "find_user_by db [Email e] = Inl NoResultFound" and a: "\<forall>v\<in>set db. email v \<noteq> e"
  have "next_id db \<notin> id' ` set db"
  proof
    assume "next_id db \<in> id' ` set db"
    then obtain v where "v \<in> set db" "id' v = next_id db" by auto
    with next_id_fresh[of v db] show False by simp
  qed
  moreover from a have "e \<notin> email ` set db" by auto
  ultimately show ?thesis using assms n by (simp add: register_user_def add_user_def Let_def)
next
  assume "find_user_by db [Email e] = Inl InvalidRequestError"
  with assms show ?thesis by (simp add: register_user_def)
qed

lemma session_calls_keep:
  "map id' (snd (create_session db uuid e)) = map id' db \<and>
   map email (snd (create_session db uuid e)) = map email db \<and>
   map id' (snd (destroy_session db i)) = map id' db \<and>
   map email (snd (destroy_session db i)) = map email db"
proof -
  have c: "\<And>j. map id' (snd (update_user db j [Session_id (Some uuid)])) = map id' db \<and>
      map email (snd (update_user db j [Session_id (Some uuid)])) = map email db"
    by (rule update_user_keeps) simp_all
  have d: "map id' (snd (update_user db i [Session_id None])) = map id' db \<and>
      map email (snd (update_user db i [Session_id None])) = map email db"
    by (rule update_user_keeps) simp_all
  from c d show ?thesis
    by (simp add: create_session_def destroy_session_def case_prod_beta split: sum.splits)
qed

lemma reset_calls_keep:
  "map id' (snd (get_reset_password_token db uuid e)) = map id' db \<and>
   map email (snd (get_reset_password_token db uuid e)) = map email db \<and>
   map id' (snd (update_password B db salt t p)) = map id' db \<and>
   map email (snd (update_password B db salt t p)) = map email db"
proof -
  have c: "\<And>j. map id' (snd (update_user db j [Reset_token (Some uuid)])) = map id' db \<and>
      map email (snd (update_user db j [Reset_token (Some uuid)])) = map email db"
    by (rule update_user_keeps) simp_all
  have d: "\<And>j. map id' (snd (update_user db j
        [Hashed_password (auth_hash_password B salt p), Reset_token None])) = map id' db \<and>
      map email (snd (update_user db j
        [Hashed_password (auth_hash_password B salt p), Reset_token None])) = map email db"
    by (rule update_user_keeps) simp_all
  from c d show ?thesis
    by (simp add: get_reset_password_token_def update_password_def case_prod_beta
             split: sum.splits error.splits)
qed

lemma unique_email_only:
  assumes "distinct (map email db)" "u \<in> set db"
  shows "\<forall>v\<in>set db. v \<noteq> u \<longrightarrow> email v \<noteq> email u"
proof (intro ballI impI notI)
  fix v assume v: "v \<in> set db" and ne: "v \<noteq> u" and eq: "email v = email u"
  from assms(1) have "inj_on email (set db)" by (simp add: distinct_map)
  from this eq v assms(2) have "v = u" by (rule inj_onD)
  with ne show False by contradiction
qed

end
